theory Spec2Isabelle
  imports Main "HOL-Library.Log_Nat"
begin

section \<open>Transcript view: \<open>Conversation\<close>\<close>

subsection \<open>Chat turns\<close>

datatype ChatMessageAuthor = User | Server

text \<open>
  Modelled from the spec: the declarations \<open>ChatMessage\<close>, \<open>ChatMessageServer\<close> and
  \<open>ChatMessageAuthor\<close> are imported by the component from \<open>types/general\<close>, which is not
  among the sources. A turn is a tagged union on its author. Both variants carry a text;
  only a Server turn carries the loading flag, the loading steps, the result payload, the
  error text, the query identifier (a UUID, kept as the string the code reads), the
  response timestamp, the optional explained file and the loaded-from-history flag. The
  step descriptors and the result payload are opaque to the component: they are type
  parameters.
\<close>

record ('step, 'res) ChatMessageServer =
  m_text :: string
  m_isLoading :: bool
  m_loadingSteps :: "'step list"
  m_results :: 'res
  m_error :: string
  m_isFromHistory :: bool
  m_queryId :: string
  m_responseTimestamp :: string
  m_explainedFile :: "string option"

datatype ('step, 'res) ChatMessage =
    UserMsg string
  | ServerMsg "('step, 'res) ChatMessageServer"

fun author :: "('step, 'res) ChatMessage \<Rightarrow> ChatMessageAuthor" where
  "author (UserMsg _) = User"
| "author (ServerMsg _) = Server"

fun text_of :: "('step, 'res) ChatMessage \<Rightarrow> string" where
  "text_of (UserMsg t) = t"
| "text_of (ServerMsg s) = m_text s"

subsection \<open>JavaScript values the projection relies on\<close>

text \<open>
  An optional boolean prop (\<open>isLoading?: boolean\<close>) is \<open>None\<close> when the caller leaves it
  out; \<open>!x\<close> is then true.
\<close>

fun truthy :: "bool option \<Rightarrow> bool" where
  "truthy None = False"
| "truthy (Some b) = b"

text \<open>\<open>xs[j]\<close>: reading outside the array gives \<open>undefined\<close>, here \<open>None\<close>.\<close>

definition js_index :: "'a list \<Rightarrow> int \<Rightarrow> 'a option" where
  "js_index xs j = (if 0 \<le> j \<and> j < int (length xs) then Some (xs ! nat j) else None)"

text \<open>
  \<open>(x as ChatMessageServer)?.queryId\<close>: the cast does nothing at run time. The chain gives
  \<open>undefined\<close> when \<open>x\<close> is \<open>undefined\<close>, and when \<open>x\<close> is a User turn, which has no such
  property.
\<close>

fun opt_queryId :: "('step, 'res) ChatMessage option \<Rightarrow> string option" where
  "opt_queryId None = None"
| "opt_queryId (Some (UserMsg _)) = None"
| "opt_queryId (Some (ServerMsg s)) = Some (m_queryId s)"

text \<open>\<open>a || b\<close> on a string that may be undefined: the empty string is falsy as well.\<close>

fun or_else :: "string option \<Rightarrow> string \<Rightarrow> string" where
  "or_else None d = d"
| "or_else (Some s) d = (if s = [] then d else s)"

definition nil_uuid :: string where
  "nil_uuid = ''00000000-0000-0000-0000-000000000000''"

subsection \<open>Per-turn projection\<close>

record ('step, 'res) Props =
  conversation :: "('step, 'res) ChatMessage list"
  threadId :: string
  repoRef :: string
  repoName :: string
  isLoading :: "bool option"
  isHistory :: "bool option"

text \<open>
  The props handed to \<open>Message\<close> for one turn. The two callbacks \<open>scrollToBottom\<close> and
  \<open>onMessageEdit\<close> are handed on unchanged and are left out; \<open>key\<close> is the index \<open>i\<close>.
\<close>

record ('step, 'res) MessageProps =
  msg_i :: nat
  msg_isLoading :: bool
  msg_loadingSteps :: "'step list"
  msg_results :: "'res option"
  msg_isHistory :: "bool option"
  msg_author :: ChatMessageAuthor
  msg_message :: string
  msg_error :: string
  showInlineFeedback :: bool
  msg_threadId :: string
  queryId :: string
  msg_repoRef :: string
  msg_repoName :: string
  msg_responseTimestamp :: "string option"
  msg_explainedFile :: "string option"

text \<open>
  Each prop follows its expression in the source: a field of a Server turn where the
  author is Server, and the stated default for a User turn.
\<close>

definition Message_props ::
  "('step, 'res) Props \<Rightarrow> nat \<Rightarrow> ('step, 'res) ChatMessage \<Rightarrow> ('step, 'res) MessageProps"
where
  "Message_props P i m =
     \<lparr> msg_i = i,
       msg_isLoading = (case m of ServerMsg s \<Rightarrow> m_isLoading s | UserMsg _ \<Rightarrow> False),
       msg_loadingSteps = (case m of ServerMsg s \<Rightarrow> m_loadingSteps s | UserMsg _ \<Rightarrow> []),
       msg_results = (case m of ServerMsg s \<Rightarrow> Some (m_results s) | UserMsg _ \<Rightarrow> None),
       msg_isHistory = isHistory P,
       msg_author = author m,
       msg_message = text_of m,
       msg_error = (case m of ServerMsg s \<Rightarrow> m_error s | UserMsg _ \<Rightarrow> []),
       showInlineFeedback =
         (case m of
            ServerMsg s \<Rightarrow>
              \<not> m_isLoading s \<and> \<not> truthy (isLoading P) \<and>
              int i = int (length (conversation P)) - 1 \<and> \<not> m_isFromHistory s
          | UserMsg _ \<Rightarrow> False),
       msg_threadId = threadId P,
       queryId =
         (case m of
            ServerMsg s \<Rightarrow> m_queryId s
          | UserMsg _ \<Rightarrow>
              or_else (opt_queryId (js_index (conversation P) (int i - 1))) nil_uuid),
       msg_repoRef = repoRef P,
       msg_repoName = repoName P,
       msg_responseTimestamp =
         (case m of ServerMsg s \<Rightarrow> Some (m_responseTimestamp s) | UserMsg _ \<Rightarrow> None),
       msg_explainedFile = (case m of ServerMsg s \<Rightarrow> m_explainedFile s | UserMsg _ \<Rightarrow> None) \<rparr>"

text \<open>\<open>conversation.map((m, i) => <Message ... />)\<close>: one prop set per turn, in order.\<close>

definition Conversation :: "('step, 'res) Props \<Rightarrow> ('step, 'res) MessageProps list" where
  "Conversation P =
     map (\<lambda>(i, m). Message_props P i m) (zip [0 ..< length (conversation P)] (conversation P))"

subsection \<open>Scroll-follow state\<close>

text \<open>
  What \<open>messagesRef.current\<close> shows of the container: \<open>scrollTop\<close> may be fractional,
  \<open>scrollHeight\<close> and \<open>clientHeight\<close> are integers. The ref is \<open>None\<close> while the container
  is not attached.
\<close>

record Container =
  scrollTop :: rat
  scrollHeight :: int
  clientHeight :: int

record ViewState =
  userScrolledUp :: bool

definition initial_state :: ViewState where
  "initial_state = \<lparr> userScrolledUp = False \<rparr>"

fun handleScroll :: "Container option \<Rightarrow> ViewState \<Rightarrow> ViewState" where
  "handleScroll None st = st"
| "handleScroll (Some el) st =
     st \<lparr> userScrolledUp := scrollTop el < of_int (scrollHeight el - clientHeight el) \<rparr>"

datatype ScrollBehavior = Smooth

datatype ScrollCommand = ScrollTo int int ScrollBehavior

fun scrollToBottom :: "Container option \<Rightarrow> ScrollCommand list" where
  "scrollToBottom None = []"
| "scrollToBottom (Some el) = [ScrollTo 0 (scrollHeight el) Smooth]"

text \<open>The effect that runs after a render in which the transcript or the flag changed.\<close>

definition follow_effect :: "Container option \<Rightarrow> ViewState \<Rightarrow> ScrollCommand list" where
  "follow_effect cur st = (if \<not> userScrolledUp st then scrollToBottom cur else [])"

text \<open>
  The view reacts to two kinds of event: a native scroll event, and a render pass followed
  by its effect. Each carries what the ref shows at that moment. A render keeps the state
  and may ask the container to scroll; only a scroll event writes the flag.
\<close>

datatype ViewEvent = ScrollEvent "Container option" | RenderPass "Container option"

fun step :: "ViewState \<Rightarrow> ViewEvent \<Rightarrow> ViewState \<times> ScrollCommand list" where
  "step st (ScrollEvent cur) = (handleScroll cur st, [])"
| "step st (RenderPass cur) = (st, follow_effect cur st)"

fun run :: "ViewState \<Rightarrow> ViewEvent list \<Rightarrow> ViewState" where
  "run st [] = st"
| "run st (e # es) = run (fst (step st e)) es"

text \<open>A scroll event that observes the container at its bottom, or past it.\<close>

fun observes_bottom :: "ViewEvent \<Rightarrow> bool" where
  "observes_bottom (ScrollEvent (Some el)) =
     (scrollTop el \<ge> of_int (scrollHeight el - clientHeight el))"
| "observes_bottom _ = False"


section \<open>Annotation decoder: \<open>CodeRenderer\<close>\<close>

subsection \<open>Regular expressions over the class string\<close>

text \<open>
  \<open>re.exec(s)\<close> of a pattern without flags tries the pattern at the start positions
  \<open>0, 1, ..., length s\<close> in turn and stops at the first position where it matches. The
  component reads only group 1 of the match, so a match is modelled by that group.
\<close>

fun first_match :: "(string \<Rightarrow> 'a option) \<Rightarrow> string \<Rightarrow> 'a option" where
  "first_match pat [] = pat []"
| "first_match pat (c # cs) =
     (case pat (c # cs) of Some g \<Rightarrow> Some g | None \<Rightarrow> first_match pat cs)"

text \<open>\<open>\w\<close> is \<open>[A-Za-z0-9_]\<close>.\<close>

definition word_char :: "char \<Rightarrow> bool" where
  "word_char c \<longleftrightarrow>
     c \<in> set ''ABCDEFGHIJKLMNOPQRSTUVWXYZabcdefghijklmnopqrstuvwxyz0123456789_''"

text \<open>
  \<open>.\<close> matches every character but a line terminator. Of the four line terminators of
  the language two are among the 8-bit characters: line feed and carriage return.
\<close>

definition line_terminator :: "char \<Rightarrow> bool" where
  "line_terminator c \<longleftrightarrow> c = CHR 0x0A \<or> c = CHR 0x0D"

definition not_line_terminator :: "char \<Rightarrow> bool" where
  "not_line_terminator c \<longleftrightarrow> \<not> line_terminator c"

text \<open>
  The literal \<open>lit\<close> followed by \<open>(\w+)\<close>, tried at the start of \<open>s\<close>: the group is greedy
  and takes the whole run of word characters; an empty run is no match.
\<close>

definition word_at :: "string \<Rightarrow> string \<Rightarrow> string option" where
  "word_at lit s =
     (if take (length lit) s = lit \<and> takeWhile word_char (drop (length lit) s) \<noteq> []
      then Some (takeWhile word_char (drop (length lit) s))
      else None)"

text \<open>
  \<open>(.+),\<close> on the rest of the line, as backtracking finds it: the group first takes the
  whole rest of the line and gives characters back until a comma follows it, so it ends
  before the last comma of the line. It must keep one character at least.
\<close>

definition greedy_before_comma :: "string \<Rightarrow> string option" where
  "greedy_before_comma seg =
     (case dropWhile (\<lambda>c. c \<noteq> CHR '','') (rev seg) of
        [] \<Rightarrow> None
      | _ # r \<Rightarrow> if r = [] then None else Some (rev r))"

text \<open>\<open>path:(.+),\<close> tried at the start of \<open>s\<close>.\<close>

definition path_at :: "string \<Rightarrow> string option" where
  "path_at s =
     (if take 5 s = ''path:''
      then greedy_before_comma (takeWhile not_line_terminator (drop 5 s))
      else None)"

text \<open>\<open>lines:(.+)\<close> tried at the start of \<open>s\<close>: the group is the non-empty rest of the line.\<close>

definition lines_at :: "string \<Rightarrow> string option" where
  "lines_at s =
     (if take 6 s = ''lines:'' \<and> takeWhile not_line_terminator (drop 6 s) \<noteq> []
      then Some (takeWhile not_line_terminator (drop 6 s))
      else None)"

text \<open>\<open>className || ''\<close>.\<close>

fun or_empty :: "string option \<Rightarrow> string" where
  "or_empty None = []"
| "or_empty (Some s) = s"

text \<open>\<open>m?.[1]\<close> used as a condition: a string is truthy unless it is empty.\<close>

fun truthy_str :: "string option \<Rightarrow> bool" where
  "truthy_str None = False"
| "truthy_str (Some s) = (s \<noteq> [])"

definition matchLang :: "string option \<Rightarrow> string option" where
  "matchLang cls =
     (case first_match (word_at ''lang:'') (or_empty cls) of
        Some g \<Rightarrow> Some g
      | None \<Rightarrow> first_match (word_at ''language-'') (or_empty cls))"

definition matchType :: "string option \<Rightarrow> string option" where
  "matchType cls = first_match (word_at ''language-type:'') (or_empty cls)"

definition matchPath :: "string option \<Rightarrow> string option" where
  "matchPath cls = first_match path_at (or_empty cls)"

definition matchLines :: "string option \<Rightarrow> string option" where
  "matchLines cls = first_match lines_at (or_empty cls)"

subsection \<open>Numbers\<close>

text \<open>
  A JavaScript number is NaN, an infinity or a finite binary64 value, kept here as the
  rational it denotes. The two zeros are one value: the component subtracts one from a
  number, tests its truthiness and formats it, and none of these tells them apart.
\<close>

datatype jsnum = NaN | PosInf | NegInf | Fin rat

definition pow2 :: "int \<Rightarrow> rat" where
  "pow2 e = (if 0 \<le> e then 2 ^ nat e else 1 / 2 ^ nat (- e))"

definition pow10 :: "int \<Rightarrow> rat" where
  "pow10 e = (if 0 \<le> e then 10 ^ nat e else 1 / 10 ^ nat (- e))"

text \<open>For \<open>a > 0\<close>: the \<open>e\<close> with \<open>2 ^ e \<le> a < 2 ^ (e + 1)\<close>.\<close>

definition ilog2 :: "rat \<Rightarrow> int" where
  "ilog2 a =
     (let e0 = bitlen (fst (quotient_of a)) - bitlen (snd (quotient_of a))
      in if pow2 e0 \<le> a then e0 else e0 - 1)"

text \<open>The number of decimal digits of a positive integer.\<close>

function decimal_length :: "int \<Rightarrow> int" where
  "decimal_length n = (if n < 10 then 1 else decimal_length (n div 10) + 1)"
  by pat_completeness auto
termination
  by (relation "measure nat") auto

declare decimal_length.simps [simp del]

text \<open>For \<open>a > 0\<close>: the \<open>n\<close> with \<open>10 ^ (n - 1) \<le> a < 10 ^ n\<close>.\<close>

definition ilog10 :: "rat \<Rightarrow> int" where
  "ilog10 a =
     (let d = decimal_length (fst (quotient_of a)) - decimal_length (snd (quotient_of a))
      in if pow10 d \<le> a then d + 1 else d)"

definition round_half_even :: "rat \<Rightarrow> int" where
  "round_half_even r =
     (let f = \<lfloor>r\<rfloor>; d = r - of_int f
      in if d < 1 / 2 then f else if 1 / 2 < d then f + 1 else if even f then f else f + 1)"

text \<open>
  Rounding a rational to binary64, to nearest with ties to even: 53 significant bits, the
  smallest exponent -1022 (below it the spacing stays \<open>2 ^ -1074\<close>), and infinity when
  the rounded magnitude reaches \<open>2 ^ 1024\<close>, that is, when its exponent is above 1023.
\<close>

definition round64 :: "rat \<Rightarrow> jsnum" where
  "round64 r =
     (if r = 0 then Fin 0
      else
        let a = \<bar>r\<bar>;
            u = pow2 (max (ilog2 a) (- 1022) - 52);
            v = of_int (round_half_even (a / u)) * u
        in if 1023 < ilog2 v then (if r < 0 then NegInf else PosInf)
           else Fin (if r < 0 then - v else v))"


subsection \<open>\<open>Number(string)\<close>\<close>

text \<open>
  The white space that \<open>Number\<close> strips from both ends, as far as it lies among the 8-bit
  characters: tab, line feed, vertical tab, form feed, carriage return, space and
  no-break space.
\<close>

definition str_white_space :: "char \<Rightarrow> bool" where
  "str_white_space c \<longleftrightarrow>
     c \<in> set [CHR 0x09, CHR 0x0A, CHR 0x0B, CHR 0x0C, CHR 0x0D, CHR 0x20, CHR 0xA0]"

definition trim :: "string \<Rightarrow> string" where
  "trim s = rev (dropWhile str_white_space (rev (dropWhile str_white_space s)))"

fun position :: "char \<Rightarrow> string \<Rightarrow> nat" where
  "position c [] = 0"
| "position c (d # ds) = (if c = d then 0 else Suc (position c ds))"

definition digit_value :: "char \<Rightarrow> nat" where
  "digit_value c =
     (if c \<in> set ''ABCDEF'' then 10 + position c ''ABCDEF''
      else position c ''0123456789abcdef'')"

definition is_digit :: "nat \<Rightarrow> char \<Rightarrow> bool" where
  "is_digit base c \<longleftrightarrow> c \<in> set ''0123456789abcdefABCDEF'' \<and> digit_value c < base"

definition digits_value :: "nat \<Rightarrow> string \<Rightarrow> int" where
  "digits_value base ds = foldl (\<lambda>a c. a * int base + int (digit_value c)) 0 ds"

fun radix_of :: "char \<Rightarrow> nat option" where
  "radix_of c =
     (if c \<in> set ''bB'' then Some 2
      else if c \<in> set ''oO'' then Some 8
      else if c \<in> set ''xX'' then Some 16
      else None)"

text \<open>\<open>0b...\<close>, \<open>0o...\<close>, \<open>0x...\<close>: an unsigned integer in base 2, 8 or 16.\<close>

definition non_decimal :: "string \<Rightarrow> jsnum option" where
  "non_decimal s =
     (case s of
        z # x # ds \<Rightarrow>
          (case radix_of x of
             Some b \<Rightarrow>
               if z = CHR ''0'' \<and> ds \<noteq> [] \<and> list_all (is_digit b) ds
               then Some (round64 (of_int (digits_value b ds)))
               else None
           | None \<Rightarrow> None)
      | _ \<Rightarrow> None)"

text \<open>The exponent part \<open>e\<close> or \<open>E\<close>, an optional sign, digits; or nothing, which is 0.\<close>

definition exponent_part :: "string \<Rightarrow> int option" where
  "exponent_part s =
     (case s of
        [] \<Rightarrow> Some 0
      | e # t \<Rightarrow>
          if e \<in> set ''eE'' then
            (let neg = (t \<noteq> [] \<and> hd t = CHR ''-'');
                 ds = (if t \<noteq> [] \<and> hd t \<in> set ''+-'' then tl t else t)
             in if ds \<noteq> [] \<and> list_all (is_digit 10) ds
                then Some (if neg then - digits_value 10 ds else digits_value 10 ds)
                else None)
          else None)"

text \<open>
  A signed decimal literal: \<open>Infinity\<close>, or digits with an optional fraction and an
  optional exponent, where the digits before or after the point may be missing but not
  both.
\<close>

definition str_decimal :: "string \<Rightarrow> jsnum option" where
  "str_decimal s =
     (let neg = (s \<noteq> [] \<and> hd s = CHR ''-'');
          r = (if s \<noteq> [] \<and> hd s \<in> set ''+-'' then tl s else s)
      in if r = ''Infinity'' then Some (if neg then NegInf else PosInf)
         else
           let ip = takeWhile (is_digit 10) r;
               r1 = dropWhile (is_digit 10) r;
               dot = (r1 \<noteq> [] \<and> hd r1 = CHR ''.'');
               fp = (if dot then takeWhile (is_digit 10) (tl r1) else []);
               r2 = (if dot then dropWhile (is_digit 10) (tl r1) else r1)
           in if ip = [] \<and> fp = [] then None
              else
                (case exponent_part r2 of
                   None \<Rightarrow> None
                 | Some e \<Rightarrow>
                     Some (round64 ((if neg then - 1 else 1) *
                             of_int (digits_value 10 (ip @ fp)) * pow10 (e - int (length fp))))))"

definition Number :: "string \<Rightarrow> jsnum" where
  "Number s =
     (let t = trim s
      in if t = [] then Fin 0
         else
           (case non_decimal t of
              Some v \<Rightarrow> v
            | None \<Rightarrow> (case str_decimal t of Some v \<Rightarrow> v | None \<Rightarrow> NaN)))"

subsection \<open>Number to string\<close>

definition digit_char :: "int \<Rightarrow> char" where
  "digit_char n = ''0123456789'' ! nat n"

text \<open>The decimal digits of a natural number, without leading zeros.\<close>

function digits_of :: "int \<Rightarrow> string" where
  "digits_of n =
     (if n < 10 then [digit_char n] else digits_of (n div 10) @ [digit_char (n mod 10)])"
  by pat_completeness auto
termination
  by (relation "measure nat") auto

declare digits_of.simps [simp del]

text \<open>
  The decimal representations of the positive binary64 value \<open>x\<close> with \<open>k\<close> digits: the
  pairs \<open>(n, s)\<close> with \<open>10 ^ (k - 1) \<le> s < 10 ^ k\<close> whose value \<open>s * 10 ^ (n - k)\<close> rounds
  to \<open>x\<close>. Only the two integers next to \<open>x / 10 ^ (n - k)\<close> can be nearest to \<open>x\<close>.
\<close>

definition candidates :: "rat \<Rightarrow> nat \<Rightarrow> (int \<times> int) list" where
  "candidates x k =
     concat (map
       (\<lambda>n. filter
          (\<lambda>c. 10 ^ (k - 1) \<le> snd c \<and> snd c < 10 ^ k \<and>
               round64 (of_int (snd c) * pow10 (n - int k)) = Fin x)
          [(n, \<lfloor>x / pow10 (n - int k)\<rfloor>), (n, \<lfloor>x / pow10 (n - int k)\<rfloor> + 1)])
       [ilog10 x, ilog10 x + 1])"

definition distance :: "rat \<Rightarrow> nat \<Rightarrow> int \<times> int \<Rightarrow> rat" where
  "distance x k c = \<bar>of_int (snd c) * pow10 (fst c - int k) - x\<bar>"

definition closer :: "rat \<Rightarrow> nat \<Rightarrow> int \<times> int \<Rightarrow> int \<times> int \<Rightarrow> int \<times> int" where
  "closer x k c d =
     (if distance x k d < distance x k c \<or>
         (distance x k d = distance x k c \<and> even (snd d) \<and> odd (snd c))
      then d else c)"

text \<open>
  The shortest representation \<open>(k, n, s)\<close>: the least number of digits \<open>k\<close> that has a
  candidate, and among its candidates the nearest to \<open>x\<close>. Seventeen digits always tell
  a binary64 value from its neighbours.
\<close>

definition shortest :: "rat \<Rightarrow> nat \<times> int \<times> int" where
  "shortest x =
     (case find (\<lambda>k. candidates x k \<noteq> []) [1 ..< 18] of
        Some k \<Rightarrow>
          (case candidates x k of
             c # cs \<Rightarrow> (k, foldl (closer x k) c cs)
           | [] \<Rightarrow> (k, ilog10 x, \<lfloor>x / pow10 (ilog10 x - int k)\<rfloor>))
      | None \<Rightarrow> (17, ilog10 x, \<lfloor>x / pow10 (ilog10 x - 17)\<rfloor>))"

definition format_positive :: "rat \<Rightarrow> string" where
  "format_positive x =
     (case shortest x of
        (k, n, s) \<Rightarrow>
          let ds = digits_of s;
              ex = (if n - 1 < 0 then CHR ''-'' else CHR ''+'') # digits_of \<bar>n - 1\<bar>
          in if int k \<le> n \<and> n \<le> 21 then ds @ replicate (nat (n - int k)) CHR ''0''
             else if 0 < n \<and> n \<le> 21 then take (nat n) ds @ ''.'' @ drop (nat n) ds
             else if - 6 < n \<and> n \<le> 0 then ''0.'' @ replicate (nat (- n)) CHR ''0'' @ ds
             else if k = 1 then ds @ ''e'' @ ex
             else take 1 ds @ ''.'' @ drop 1 ds @ ''e'' @ ex)"

text \<open>A number inside a template literal: \<open>`${x}`\<close>.\<close>

fun Number_toString :: "jsnum \<Rightarrow> string" where
  "Number_toString NaN = ''NaN''"
| "Number_toString PosInf = ''Infinity''"
| "Number_toString NegInf = ''-Infinity''"
| "Number_toString (Fin r) =
     (if r = 0 then ''0''
      else if r < 0 then CHR ''-'' # format_positive (- r)
      else format_positive r)"

text \<open>
  \<open>x - 1\<close> where \<open>x\<close> is an array element that may be missing: \<open>undefined - 1\<close> is NaN.
\<close>

fun minus_one :: "jsnum option \<Rightarrow> jsnum" where
  "minus_one None = NaN"
| "minus_one (Some NaN) = NaN"
| "minus_one (Some PosInf) = PosInf"
| "minus_one (Some NegInf) = NegInf"
| "minus_one (Some (Fin r)) = round64 (r - 1)"

text \<open>\<open>a ?? b\<close>: only a missing element is nullish, NaN is not.\<close>

fun nullish_or :: "'a option \<Rightarrow> 'a option \<Rightarrow> 'a option" where
  "nullish_or None b = b"
| "nullish_or (Some a) b = Some a"

text \<open>A number used as a condition: missing, NaN and zero are falsy.\<close>

fun truthy_num :: "jsnum option \<Rightarrow> bool" where
  "truthy_num None = False"
| "truthy_num (Some NaN) = False"
| "truthy_num (Some (Fin r)) = (r \<noteq> 0)"
| "truthy_num (Some _) = True"


subsection \<open>The component\<close>

text \<open>
  A child node is a plain string or something else (an element, a number, ...), which the
  component never looks into.
\<close>

datatype 'e ReactNode = Text string | Element 'e

record 'e CodeProps =
  className :: "string option"
  children :: "'e ReactNode list"
  inline :: "bool option"
  hideCode :: "bool option"
  code_repoName :: string
  propsJSON :: string

text \<open>\<open>typeof children[0] === 'string'\<close>.\<close>

fun is_string :: "'e ReactNode option \<Rightarrow> bool" where
  "is_string (Some (Text _)) = True"
| "is_string _ = False"

text \<open>\<open>s.replace(/\n$/, '')\<close>: without the \<open>m\<close> flag \<open>$\<close> is the end of the string only.\<close>

definition strip_final_newline :: "string \<Rightarrow> string" where
  "strip_final_newline s = (if s \<noteq> [] \<and> last s = CHR 0x0A then butlast s else s)"

definition code :: "'e ReactNode list \<Rightarrow> string" where
  "code ch = (case js_index ch 0 of Some (Text t) \<Rightarrow> strip_final_newline t | _ \<Rightarrow> [])"

text \<open>\<open>s.split('-')\<close>.\<close>

fun js_split :: "char \<Rightarrow> string \<Rightarrow> string list" where
  "js_split d [] = [[]]"
| "js_split d (c # cs) =
     (if c = d then [] # js_split d cs
      else (case js_split d cs of w # ws \<Rightarrow> (c # w) # ws | [] \<Rightarrow> [[c]]))"

text \<open>
  \<open>matchLines?.[1].split('-').map((l) => Number(l)) || []\<close>: without a match the chain is
  \<open>undefined\<close> and the empty array stands in.
\<close>

definition lines :: "string option \<Rightarrow> jsnum list" where
  "lines cls =
     (case matchLines cls of
        Some g \<Rightarrow> map Number (js_split CHR ''-'' g)
      | None \<Rightarrow> [])"

text \<open>
  \<open>/(^#[0-9A-F]{6}$)|(^#[0-9A-F]{3}$)/i.test(s)\<close>. Under the \<open>i\<close> flag the class
  \<open>[0-9A-F]\<close> takes \<open>a\<close> to \<open>f\<close> as well.
\<close>

definition hex_class_i :: "char \<Rightarrow> bool" where
  "hex_class_i c \<longleftrightarrow> c \<in> set ''0123456789ABCDEFabcdef''"

text \<open>\<open>[0-9A-F]{n}$\<close> tried at the start of \<open>s\<close>.\<close>

fun hex_run_to_end :: "nat \<Rightarrow> string \<Rightarrow> bool" where
  "hex_run_to_end 0 s = (s = [])"
| "hex_run_to_end (Suc n) [] = False"
| "hex_run_to_end (Suc n) (c # cs) = (hex_class_i c \<and> hex_run_to_end n cs)"

definition test_hex_colour :: "string \<Rightarrow> bool" where
  "test_hex_colour s =
     (case s of
        [] \<Rightarrow> False
      | c # cs \<Rightarrow> c = CHR ''#'' \<and> (hex_run_to_end 6 cs \<or> hex_run_to_end 3 cs))"

text \<open>
  \<open>colorPreview\<close>: the preview span, given by its background colour, or \<open>null\<close>. The
  first child must be truthy (a non-empty string passes), the only child, and a string
  that the pattern accepts.
\<close>

definition colorPreview :: "'e ReactNode list \<Rightarrow> string option" where
  "colorPreview ch =
     (case js_index ch 0 of
        Some (Text t) \<Rightarrow> if t \<noteq> [] \<and> length ch = 1 \<and> test_hex_colour t then Some t else None
      | _ \<Rightarrow> None)"

definition linesToUse :: "jsnum list \<Rightarrow> jsnum \<times> jsnum" where
  "linesToUse ls =
     (minus_one (js_index ls 0), minus_one (nullish_or (js_index ls 1) (js_index ls 0)))"

text \<open>
  What a callback does when it is invoked: \<open>handleChipClick\<close> calls the caller's
  \<open>updateScrollToIndex\<close> with the formatted range.
\<close>

datatype Call = UpdateScrollToIndex string

definition handleChipClick :: "jsnum list \<Rightarrow> Call" where
  "handleChipClick ls =
     UpdateScrollToIndex
       (Number_toString (minus_one (js_index ls 0)) @ ''_'' @
        Number_toString (minus_one (nullish_or (js_index ls 1) (js_index ls 0))))"

text \<open>
  The elements the component can return, each with the props it is given. The caller's
  \<open>fileChips\<close>, \<open>setFileHighlights\<close>, \<open>setHoveredLines\<close> and \<open>openFileModal\<close> are handed on
  unchanged and are left out.
\<close>

record FileChipProps =
  fileName :: string
  filePath :: string
  skipIcon :: bool
  onClick :: Call
  chip_lines :: "jsnum \<times> jsnum"

record CodeWithBreadcrumbsProps =
  cwb_code :: string
  cwb_language :: string
  cwb_filePath :: string
  startLine :: "jsnum option"
  cwb_repoName :: string

record NewCodeProps =
  nc_code :: string
  nc_language :: string

text \<open>
  \<open><code {...JSON.parse(propsJSON)} className={className}>{children}</code>\<close>: the
  parsed attributes, then the class name, which overrides an attribute of that name.
\<close>

record ('a, 'e) CodeElement =
  attributes :: 'a
  el_className :: "string option"
  el_children :: "'e ReactNode list"

datatype ('a, 'e) Rendered =
    FileChip FileChipProps
  | CodeWithBreadcrumbs CodeWithBreadcrumbsProps
  | NewCode NewCodeProps
  | PreviewAndCode string "('a, 'e) CodeElement"
  | Code "('a, 'e) CodeElement"

datatype error = SyntaxError

text \<open>
  \<open>JSON.parse\<close> is a parameter: it gives the attributes, or \<open>None\<close> where it throws a
  \<open>SyntaxError\<close>, which nothing in the component catches.
\<close>

definition code_element ::
  "(string \<Rightarrow> 'a option) \<Rightarrow> 'e CodeProps \<Rightarrow> error + ('a, 'e) CodeElement"
where
  "code_element JSON_parse p =
     (case JSON_parse (propsJSON p) of
        None \<Rightarrow> Inl SyntaxError
      | Some a \<Rightarrow>
          Inr \<lparr> attributes = a, el_className = className p, el_children = children p \<rparr>)"

definition CodeRenderer ::
  "(string \<Rightarrow> 'a option) \<Rightarrow> 'e CodeProps \<Rightarrow> error + ('a, 'e) Rendered"
where
  "CodeRenderer JSON_parse p =
     (if \<not> truthy (inline p) \<and>
         (truthy_str (matchType (className p)) \<or> truthy_str (matchLang (className p))) \<and>
         is_string (js_index (children p) 0)
      then
        if matchType (className p) = Some ''Quoted'' then
          if truthy (hideCode p) then
            Inr (FileChip
              \<lparr> fileName = or_else (matchPath (className p)) [],
                filePath = or_else (matchPath (className p)) [],
                skipIcon = False,
                onClick = handleChipClick (lines (className p)),
                chip_lines = linesToUse (lines (className p)) \<rparr>)
          else
            Inr (CodeWithBreadcrumbs
              \<lparr> cwb_code = code (children p),
                cwb_language = or_else (matchLang (className p)) [],
                cwb_filePath = or_else (matchPath (className p)) [],
                startLine =
                  (if truthy_num (js_index (lines (className p)) 0)
                   then Some (minus_one (js_index (lines (className p)) 0))
                   else None),
                cwb_repoName = code_repoName p \<rparr>)
        else
          Inr (NewCode
            \<lparr> nc_code = code (children p),
              nc_language = or_else (matchLang (className p)) [] \<rparr>)
      else
        (case colorPreview (children p) of
           Some colour \<Rightarrow>
             (case code_element JSON_parse p of
                Inl e \<Rightarrow> Inl e
              | Inr el \<Rightarrow> Inr (PreviewAndCode colour el))
         | None \<Rightarrow>
             (case code_element JSON_parse p of
                Inl e \<Rightarrow> Inl e
              | Inr el \<Rightarrow> Inr (Code el))))"

subsection \<open>The five strategies of the specification\<close>

datatype Strategy = PlainCode | SyntaxBlock | SourceQuote | FileChipStrategy | ColorSwatch

fun strategy :: "('a, 'e) Rendered \<Rightarrow> Strategy" where
  "strategy (FileChip _) = FileChipStrategy"
| "strategy (CodeWithBreadcrumbs _) = SourceQuote"
| "strategy (NewCode _) = SyntaxBlock"
| "strategy (PreviewAndCode _ _) = ColorSwatch"
| "strategy (Code _) = PlainCode"


section \<open>Example inputs\<close>

text \<open>A finished Server turn with the query identifier \<open>q\<close>.\<close>

definition answered :: "string \<Rightarrow> (unit, unit) ChatMessage" where
  "answered q =
     ServerMsg \<lparr> m_text = ''answer'', m_isLoading = False, m_loadingSteps = [],
       m_results = (), m_error = [], m_isFromHistory = False, m_queryId = q,
       m_responseTimestamp = ''2023-06-01T12:00:00Z'', m_explainedFile = None \<rparr>"

definition view_of :: "(unit, unit) ChatMessage list \<Rightarrow> (unit, unit) Props" where
  "view_of turns =
     \<lparr> conversation = turns, threadId = ''thread'', repoRef = ''ref'', repoName = ''repo'',
       isLoading = Some False, isHistory = None \<rparr>"

text \<open>A fenced block with the class string \<open>cls\<close> and one line of text.\<close>

definition block :: "string \<Rightarrow> bool \<Rightarrow> unit CodeProps" where
  "block cls hide =
     \<lparr> className = Some cls, children = [Text ''fn main() {}''], inline = Some False,
       hideCode = Some hide, code_repoName = ''repo'', propsJSON = ''{}'' \<rparr>"

text \<open>An inline code element without a class, holding the text \<open>t\<close>.\<close>

definition inline_code :: "string \<Rightarrow> unit CodeProps" where
  "inline_code t =
     \<lparr> className = None, children = [Text t], inline = Some True,
       hideCode = None, code_repoName = ''repo'', propsJSON = ''{}'' \<rparr>"

text \<open>A stand-in for \<open>JSON.parse\<close> that knows the empty object only.\<close>

definition parse_empty_object :: "string \<Rightarrow> (string \<times> string) list option" where
  "parse_empty_object blob = (if blob = ''{}'' then Some [] else None)"

definition scrolled_up :: Container where
  "scrolled_up = \<lparr> scrollTop = 100, scrollHeight = 1000, clientHeight = 400 \<rparr>"

definition at_bottom :: Container where
  "at_bottom = \<lparr> scrollTop = 600, scrollHeight = 1000, clientHeight = 400 \<rparr>"

section \<open>Auxiliary facts\<close>

subsection \<open>Projection and scroll state\<close>

lemma Conversation_nth:
  "i < length (conversation P) \<Longrightarrow> Conversation P ! i = Message_props P i (conversation P ! i)"
  by (simp add: Conversation_def)

lemma queryId_Message_props:
  "queryId (Message_props P i (ServerMsg s)) = m_queryId s"
  "queryId (Message_props P i (UserMsg t)) =
     or_else (opt_queryId (js_index (conversation P) (int i - 1))) nil_uuid"
  by (simp_all add: Message_props_def)

text \<open>
  The projected identifier for any strings as identifiers: \<open>||\<close> takes an empty
  identifier of the turn before for a missing one.
\<close>

lemma queryId_Conversation_nth:
  assumes "i < length (conversation P)"
  shows "queryId (Conversation P ! i) =
     (case conversation P ! i of
        ServerMsg s \<Rightarrow> m_queryId s
      | UserMsg t \<Rightarrow>
          (if i = 0 then nil_uuid
           else
             (case conversation P ! (i - 1) of
                UserMsg t' \<Rightarrow> nil_uuid
              | ServerMsg s \<Rightarrow> if m_queryId s = [] then nil_uuid else m_queryId s)))"
  using assms
  by (cases "conversation P ! i"; cases "conversation P ! (i - 1)")
     (auto simp: Conversation_nth queryId_Message_props js_index_def nat_diff_distrib')

lemma showInlineFeedback_Message_props:
  "showInlineFeedback (Message_props P i (ServerMsg s)) \<longleftrightarrow>
     \<not> m_isLoading s \<and> \<not> truthy (isLoading P) \<and>
     int i = int (length (conversation P)) - 1 \<and> \<not> m_isFromHistory s"
  "\<not> showInlineFeedback (Message_props P i (UserMsg t))"
  by (simp_all add: Message_props_def)

lemma run_append: "run st (es @ fs) = run (run st es) fs"
  by (induction es arbitrary: st) simp_all

lemma run_stays_up:
  "userScrolledUp st \<Longrightarrow> list_all (\<lambda>e. \<not> observes_bottom e) es \<Longrightarrow> userScrolledUp (run st es)"
proof (induction es arbitrary: st)
  case Nil
  then show ?case by simp
next
  case (Cons e es)
  have "userScrolledUp (fst (step st e))"
  proof (cases e)
    case (ScrollEvent cur)
    with Cons.prems show ?thesis by (cases cur) auto
  next
    case (RenderPass cur)
    with Cons.prems show ?thesis by simp
  qed
  with Cons show ?case by simp
qed

subsection \<open>First-match search\<close>

lemma first_match_SomeD:
  "first_match pat s = Some g \<Longrightarrow>
     \<exists>pre suf. s = pre @ suf \<and> pat suf = Some g \<and> (\<forall>k<length pre. pat (drop k s) = None)"
proof (induction s)
  case Nil
  then show ?case by simp
next
  case (Cons c cs)
  show ?case
  proof (cases "pat (c # cs)")
    case (Some h)
    with Cons.prems have "pat (c # cs) = Some g" by simp
    then have "c # cs = [] @ (c # cs) \<and> pat (c # cs) = Some g \<and>
        (\<forall>k<length ([]::string). pat (drop k (c # cs)) = None)"
      by simp
    then show ?thesis by blast
  next
    case None
    with Cons.prems have "first_match pat cs = Some g" by simp
    from Cons.IH[OF this] obtain pre suf where
      ps: "cs = pre @ suf" "pat suf = Some g" "\<forall>k<length pre. pat (drop k cs) = None"
      by blast
    have "\<forall>k<length (c # pre). pat (drop k (c # cs)) = None"
    proof (intro allI impI)
      fix k assume "k < length (c # pre)"
      then show "pat (drop k (c # cs)) = None"
        using None ps(3) by (cases k) simp_all
    qed
    with ps(1,2) have "c # cs = (c # pre) @ suf \<and> pat suf = Some g \<and>
        (\<forall>k<length (c # pre). pat (drop k (c # cs)) = None)"
      by simp
    then show ?thesis by blast
  qed
qed

lemma first_match_leftmost:
  "pat suf = Some g \<Longrightarrow> \<forall>k<length pre. pat (drop k (pre @ suf)) = None \<Longrightarrow>
     first_match pat (pre @ suf) = Some g"
proof (induction pre)
  case Nil
  then show ?case by (cases suf) simp_all
next
  case (Cons c pre)
  from Cons.prems(2) have here: "pat (c # pre @ suf) = None"
    by force
  have "\<forall>k<length pre. pat (drop k (pre @ suf)) = None"
  proof (intro allI impI)
    fix k assume "k < length pre"
    then have "Suc k < length (c # pre)" by simp
    with Cons.prems(2) have "pat (drop (Suc k) ((c # pre) @ suf)) = None" by blast
    then show "pat (drop k (pre @ suf)) = None" by simp
  qed
  with Cons.IH Cons.prems(1) have "first_match pat (pre @ suf) = Some g" by blast
  with here show ?case by simp
qed

lemma first_match_exists:
  "pat suf \<noteq> None \<Longrightarrow> first_match pat (pre @ suf) \<noteq> None"
proof (induction pre)
  case Nil
  then show ?case by (cases suf) (auto split: option.splits)
next
  case (Cons c pre)
  then show ?case by (auto split: option.splits)
qed

subsection \<open>The path pattern\<close>

lemma greedy_before_commaD:
  assumes "greedy_before_comma seg = Some v"
  shows "\<exists>w. seg = v @ CHR '','' # w \<and> v \<noteq> [] \<and> CHR '','' \<notin> set w"
proof -
  let ?P = "\<lambda>c. c \<noteq> CHR '',''"
  from assms obtain x r where d: "dropWhile ?P (rev seg) = x # r" and v: "v = rev r" "r \<noteq> []"
    by (auto simp: greedy_before_comma_def split: list.splits if_splits)
  have x: "x = CHR '',''"
    using hd_dropWhile[of ?P "rev seg"] d by simp
  have "rev seg = takeWhile ?P (rev seg) @ x # r"
    using takeWhile_dropWhile_id[of ?P "rev seg"] d by simp
  then have "rev (rev seg) = rev (takeWhile ?P (rev seg) @ x # r)"
    by (rule arg_cong)
  then have "seg = rev (takeWhile ?P (rev seg) @ x # r)"
    by simp
  then have seg: "seg = v @ CHR '','' # rev (takeWhile ?P (rev seg))"
    by (simp add: v x)
  have "CHR '','' \<notin> set (rev (takeWhile ?P (rev seg)))"
    by (auto dest: set_takeWhileD)
  with seg v show ?thesis by blast
qed

lemma greedy_before_commaI:
  assumes "v \<noteq> []"
  shows "greedy_before_comma (v @ CHR '','' # w) \<noteq> None"
proof -
  let ?P = "\<lambda>c. c \<noteq> CHR '',''"
  have "dropWhile ?P (rev w @ CHR '','' # rev v) =
      (if \<forall>c\<in>set (rev w). ?P c then CHR '','' # rev v else dropWhile ?P (rev w) @ CHR '','' # rev v)"
    by (simp add: dropWhile_append)
  moreover have "\<not> (\<forall>c\<in>set (rev w). ?P c) \<Longrightarrow> \<exists>y ys. dropWhile ?P (rev w) = y # ys"
    by (cases "dropWhile ?P (rev w)") (simp_all only: dropWhile_eq_Nil_conv, blast+)
  ultimately show ?thesis
    using assms by (auto simp: greedy_before_comma_def split: list.splits)
qed

lemma greedy_before_comma_last:
  assumes "v \<noteq> []" "CHR '','' \<notin> set w"
  shows "greedy_before_comma (v @ CHR '','' # w) = Some v"
proof -
  let ?P = "\<lambda>c. c \<noteq> CHR '',''"
  have "dropWhile ?P (rev w @ CHR '','' # rev v) = CHR '','' # rev v"
    using assms(2) by (simp add: dropWhile_append)
  then show ?thesis
    using assms(1) by (simp add: greedy_before_comma_def)
qed

lemma takeWhile_dropWhile_Nil: "takeWhile P (dropWhile P xs) = []"
  by (induction xs) simp_all

lemma list_all_takeWhile: "list_all P (takeWhile P xs)"
  by (induction xs) simp_all

lemma path_atD:
  assumes "path_at s = Some v"
  shows "\<exists>post. s = ''path:'' @ v @ '','' @ post \<and> v \<noteq> [] \<and>
           list_all not_line_terminator v \<and>
           CHR '','' \<notin> set (takeWhile not_line_terminator post)"
proof -
  let ?N = not_line_terminator
  let ?r = "drop 5 s"
  from assms have t: "take 5 s = ''path:''"
    and g: "greedy_before_comma (takeWhile ?N ?r) = Some v"
    by (auto simp: path_at_def split: if_splits)
  from greedy_before_commaD[OF g] obtain w where
    w: "takeWhile ?N ?r = v @ CHR '','' # w" "v \<noteq> []" "CHR '','' \<notin> set w"
    by blast
  have all: "list_all ?N (v @ CHR '','' # w)"
    unfolding w(1)[symmetric] by (rule list_all_takeWhile)
  have "take 5 s @ ?r = s"
    by (rule append_take_drop_id)
  then have s0: "''path:'' @ ?r = s"
    unfolding t .
  have "takeWhile ?N ?r @ dropWhile ?N ?r = ?r"
    by (rule takeWhile_dropWhile_id)
  then have "(v @ CHR '','' # w) @ dropWhile ?N ?r = ?r"
    unfolding w(1) .
  with s0 have "''path:'' @ (v @ CHR '','' # w) @ dropWhile ?N ?r = s"
    by simp
  then have s: "s = ''path:'' @ v @ '','' @ (w @ dropWhile ?N ?r)"
    by simp
  have "takeWhile ?N (w @ dropWhile ?N ?r) = w"
  proof -
    have "list_all ?N w" using all by simp
    then have "takeWhile ?N (w @ dropWhile ?N ?r) = w @ takeWhile ?N (dropWhile ?N ?r)"
      by (simp add: takeWhile_append2 list_all_iff)
    moreover have "takeWhile ?N (dropWhile ?N ?r) = []"
      by (rule takeWhile_dropWhile_Nil)
    ultimately show ?thesis by simp
  qed
  with w(3) have "CHR '','' \<notin> set (takeWhile ?N (w @ dropWhile ?N ?r))" by simp
  moreover have "list_all ?N v" using all by simp
  ultimately show ?thesis using s w(2) by blast
qed

lemma comma_not_line_terminator: "not_line_terminator CHR '',''"
  by (simp add: not_line_terminator_def line_terminator_def)

lemma path_at_segment:
  assumes "list_all not_line_terminator v"
  shows "path_at (''path:'' @ v @ '','' @ post) =
           greedy_before_comma (v @ CHR '','' # takeWhile not_line_terminator post)"
  using assms comma_not_line_terminator
  by (simp add: path_at_def takeWhile_append2 list_all_iff)

subsection \<open>The colour pattern and the untagged branches\<close>

lemma hex_run_to_end_iff: "hex_run_to_end n s \<longleftrightarrow> length s = n \<and> list_all hex_class_i s"
  by (induction n s rule: hex_run_to_end.induct) auto

lemma list_all_hex_class_i:
  "list_all hex_class_i ds \<longleftrightarrow> set ds \<subseteq> set ''0123456789ABCDEFabcdef''"
  unfolding list_all_iff hex_class_i_def by blast

lemma test_hex_colour_iff:
  "test_hex_colour t \<longleftrightarrow>
     (\<exists>ds. t = CHR ''#'' # ds \<and> (length ds = 3 \<or> length ds = 6) \<and>
           set ds \<subseteq> set ''0123456789ABCDEFabcdef'')"
proof (cases t)
  case Nil
  then show ?thesis by (simp add: test_hex_colour_def)
next
  case (Cons c cs)
  have "test_hex_colour (c # cs) \<longleftrightarrow>
      c = CHR ''#'' \<and> (length cs = 3 \<or> length cs = 6) \<and> list_all hex_class_i cs"
    by (auto simp add: test_hex_colour_def hex_run_to_end_iff)
  then show ?thesis
    unfolding Cons list_all_hex_class_i by blast
qed

lemma CodeRenderer_untagged:
  assumes "matchLang (className p) = None" "matchType (className p) = None"
  shows "CodeRenderer J p =
     (case colorPreview (children p) of
        Some colour \<Rightarrow>
          (case J (propsJSON p) of
             None \<Rightarrow> Inl SyntaxError
           | Some a \<Rightarrow> Inr (PreviewAndCode colour
               \<lparr> attributes = a, el_className = className p, el_children = children p \<rparr>))
      | None \<Rightarrow>
          (case J (propsJSON p) of
             None \<Rightarrow> Inl SyntaxError
           | Some a \<Rightarrow> Inr (Code
               \<lparr> attributes = a, el_className = className p, el_children = children p \<rparr>)))"
  using assms by (simp add: CodeRenderer_def code_element_def split: option.splits)

lemma colorPreview_single:
  "colorPreview [Text t] = (if test_hex_colour t then Some t else None)"
  by (auto simp: colorPreview_def js_index_def test_hex_colour_def)

subsection \<open>The type tag under the language pattern\<close>

lemma word_at_language_type:
  "word_at ''language-'' (''language-type:'' @ rest) = Some ''type''"
  by (simp add: word_at_def word_char_def)

lemma word_at_type_tag:
  "word_char c \<Longrightarrow> word_at ''language-type:'' (''language-type:'' @ c # rest) \<noteq> None"
  by (simp add: word_at_def)

subsection \<open>Integers below \<open>2 ^ 53\<close> are binary64 values\<close>

lemma bitlen_one: "bitlen 1 = 1"
  by (simp add: bitlen_alt_def)

lemma ilog2_of_int_le:
  assumes "0 < n" "n < 2 ^ 53"
  shows "ilog2 (of_int n) \<le> 52"
proof -
  have "bitlen n \<le> 53"
    using assms by (simp add: bitlen_le_iff_power)
  then show ?thesis
    by (simp add: ilog2_def Let_def quotient_of_int bitlen_one)
qed

lemma round_half_even_of_int: "round_half_even (of_int m) = m"
  by (simp add: round_half_even_def)

lemma round64_of_int_pos:
  assumes "0 < n" "n < 2 ^ 53"
  shows "round64 (of_int n) = Fin (of_int n)"
proof -
  define e where "e = max (ilog2 (of_int n)) (- 1022)"
  define k where "k = nat (52 - e)"
  have e: "e \<le> 52"
    using ilog2_of_int_le[OF assms] by (simp add: e_def)
  have u: "pow2 (e - 52) = 1 / 2 ^ k"
    using e by (cases "e = 52") (simp_all add: pow2_def k_def)
  have q: "(of_int n :: rat) / pow2 (e - 52) = of_int (n * 2 ^ k)"
    by (simp add: u)
  have v: "of_int (round_half_even ((of_int n :: rat) / pow2 (e - 52))) * pow2 (e - 52) =
      (of_int n :: rat)"
    unfolding q round_half_even_of_int by (simp add: u)
  have small: "\<not> 1023 < ilog2 (of_int n)"
    using ilog2_of_int_le[OF assms] by simp
  have pos: "(of_int n :: rat) > 0"
    using assms(1) by simp
  show ?thesis
    unfolding round64_def Let_def
    using pos small v by (simp add: e_def[symmetric] abs_of_pos)
qed

lemma round64_4: "round64 4 = Fin 4"
  using round64_of_int_pos [of 4] by simp

subsection \<open>The worked class strings\<close>

lemma quoted_a_py_tags:
  "matchType (Some ''language-type:Quoted path:a.py, lines:5'') = Some ''Quoted''"
  "matchLang (Some ''language-type:Quoted path:a.py, lines:5'') = Some ''type''"
  "matchPath (Some ''language-type:Quoted path:a.py, lines:5'') = Some ''a.py''"
  "lines (Some ''language-type:Quoted path:a.py, lines:5'') = [Fin 5]"
  by code_simp+

lemma chip_click_5: "handleChipClick [Fin 5] = UpdateScrollToIndex ''4_4''"
  by code_simp

lemma linesToUse_5: "linesToUse [Fin 5] = (Fin 4, Fin 4)"
  by code_simp

lemma rust_tags:
  "matchLang (Some ''lang:rust path:src/main.rs, lines:10-20'') = Some ''rust''"
  "matchPath (Some ''lang:rust path:src/main.rs, lines:10-20'') = Some ''src/main.rs''"
  "lines (Some ''lang:rust path:src/main.rs, lines:10-20'') = [Fin 10, Fin 20]"
  "lines (Some ''lang:rust path:src/main.rs, lines:10'') = [Fin 10]"
  by code_simp+

lemma linesToUse_10_20:
  "linesToUse [Fin 10, Fin 20] = (Fin 9, Fin 19)"
  "linesToUse [Fin 10] = (Fin 9, Fin 9)"
  by code_simp+

lemma abc_tags:
  "matchType (Some ''language-type:Quoted path:a.py, lines:abc'') = Some ''Quoted''"
  "matchPath (Some ''language-type:Quoted path:a.py, lines:abc'') = Some ''a.py''"
  "lines (Some ''language-type:Quoted path:a.py, lines:abc'') = [NaN]"
  by code_simp+

lemma no_lines_tags:
  "matchType (Some ''language-type:Quoted path:a.py,'') = Some ''Quoted''"
  "matchPath (Some ''language-type:Quoted path:a.py,'') = Some ''a.py''"
  "lines (Some ''language-type:Quoted path:a.py,'') = []"
  by code_simp+

lemma chip_click_nan:
  "handleChipClick [NaN] = UpdateScrollToIndex ''NaN_NaN''"
  "handleChipClick [] = UpdateScrollToIndex ''NaN_NaN''"
  by code_simp+

lemma linesToUse_nan:
  "linesToUse [NaN] = (NaN, NaN)"
  "linesToUse [] = (NaN, NaN)"
  by code_simp+

lemma greedy_example:
  "matchPath (Some ''lang:x path:a.py, lines:5, x'') = Some ''a.py, lines:5''"
  by code_simp

lemma untagged_None: "matchLang None = None" "matchType None = None"
  by code_simp+

lemma pathless_tags:
  "matchType (Some ''language-type:Quoted lines:5'') = Some ''Quoted''"
  "matchPath (Some ''language-type:Quoted lines:5'') = None"
  "lines (Some ''language-type:Quoted lines:5'') = [Fin 5]"
  by code_simp+

lemma js_tags:
  "matchType (Some ''language-js language-type:Quoted'') = Some ''Quoted''"
  "first_match (word_at ''lang:'') ''language-js language-type:Quoted'' = None"
  "matchLang (Some ''language-js language-type:Quoted'') = Some ''js''"
  "matchPath (Some ''language-js language-type:Quoted'') = None"
  "lines (Some ''language-js language-type:Quoted'') = []"
  by code_simp+

lemma other_tags:
  "matchType (Some ''language-type:Other'') = Some ''Other''"
  "first_match (word_at ''lang:'') ''language-type:Other'' = None"
  by code_simp+

lemma no_lang_token:
  "first_match (word_at ''lang:'') ''language-type:Quoted path:a.py, lines:5'' = None"
  by code_simp

lemma example_code: "code [Text ''fn main() {}''] = ''fn main() {}''"
  by code_simp

section \<open>Transcript view: the claims\<close>

text \<open>
  C1. In a transcript whose Server turns carry their query identifier (a UUID, so never
  the empty string), the projected query identifier of a User turn at index \<open>i\<close> is the
  query identifier of the turn at \<open>i - 1\<close> when that turn exists and is Server-authored,
  and the nil UUID when \<open>i = 0\<close> or the turn before is User-authored; for a Server turn it
  is the turn's own query identifier.
\<close>

theorem effectiveQueryId_of_turn:
  assumes "i < length (conversation P)"
    and "\<forall>s. ServerMsg s \<in> set (conversation P) \<longrightarrow> m_queryId s \<noteq> []"
  shows "queryId (Conversation P ! i) =
     (case conversation P ! i of
        ServerMsg s \<Rightarrow> m_queryId s
      | UserMsg t \<Rightarrow>
          (if i = 0 then nil_uuid
           else
             (case conversation P ! (i - 1) of
                UserMsg t' \<Rightarrow> nil_uuid
              | ServerMsg s \<Rightarrow> m_queryId s)))"
proof -
  have "m_queryId s \<noteq> []" if "0 < i" and "conversation P ! (i - 1) = ServerMsg s" for s
  proof -
    from that(1) assms(1) have "i - 1 < length (conversation P)" by simp
    then have "conversation P ! (i - 1) \<in> set (conversation P)" by (rule nth_mem)
    with that(2) assms(2) show ?thesis by simp
  qed
  then show ?thesis
    unfolding queryId_Conversation_nth[OF assms(1)]
    by (auto split: ChatMessage.splits)
qed

text \<open>The theorem at each index of a transcript of four turns.\<close>

theorem effectiveQueryId_of_turn_witness:
  "queryId (Conversation (view_of
      [UserMsg ''first'', answered ''123e4567-e89b-12d3-a456-426614174000'',
       UserMsg ''second'', UserMsg ''third'']) ! 0) = nil_uuid \<and>
   queryId (Conversation (view_of
      [UserMsg ''first'', answered ''123e4567-e89b-12d3-a456-426614174000'',
       UserMsg ''second'', UserMsg ''third'']) ! 1) = ''123e4567-e89b-12d3-a456-426614174000'' \<and>
   queryId (Conversation (view_of
      [UserMsg ''first'', answered ''123e4567-e89b-12d3-a456-426614174000'',
       UserMsg ''second'', UserMsg ''third'']) ! 2) = ''123e4567-e89b-12d3-a456-426614174000'' \<and>
   queryId (Conversation (view_of
      [UserMsg ''first'', answered ''123e4567-e89b-12d3-a456-426614174000'',
       UserMsg ''second'', UserMsg ''third'']) ! 3) = nil_uuid"
proof -
  let ?P = "view_of
      [UserMsg ''first'', answered ''123e4567-e89b-12d3-a456-426614174000'',
       UserMsg ''second'', UserMsg ''third'']"
  have ids: "\<forall>s. ServerMsg s \<in> set (conversation ?P) \<longrightarrow> m_queryId s \<noteq> []"
    by (auto simp: view_of_def answered_def)
  have len: "0 < length (conversation ?P)" "1 < length (conversation ?P)"
    "2 < length (conversation ?P)" "3 < length (conversation ?P)"
    by (simp_all add: view_of_def)
  show ?thesis
    using effectiveQueryId_of_turn [OF len(1) ids] effectiveQueryId_of_turn [OF len(2) ids]
      effectiveQueryId_of_turn [OF len(3) ids] effectiveQueryId_of_turn [OF len(4) ids]
    by (simp add: view_of_def answered_def)
qed

text \<open>
  C4. For a turn at index \<open>i\<close> of a transcript of length \<open>N\<close>, \<open>showInlineFeedback\<close> is true
  if and only if the turn is Server-authored, its own loading flag is false, the overall
  loading flag is not set, \<open>i = N - 1\<close> and the turn is not loaded from history.
\<close>

theorem showInlineFeedback_iff:
  assumes "i < length (conversation P)"
  shows "showInlineFeedback (Conversation P ! i) \<longleftrightarrow>
     (\<exists>s. conversation P ! i = ServerMsg s \<and> \<not> m_isLoading s \<and> isLoading P \<noteq> Some True \<and>
          i = length (conversation P) - 1 \<and> \<not> m_isFromHistory s)"
  using assms
  by (cases "conversation P ! i"; cases "isLoading P")
     (auto simp: Conversation_nth showInlineFeedback_Message_props)

text \<open>Three turns, two of them finished answers: only the last one shows the feedback.\<close>

theorem showInlineFeedback_iff_witness:
  "\<not> showInlineFeedback (Conversation (view_of [answered ''q-1'', UserMsg ''more'', answered ''q-2'']) ! 0) \<and>
   \<not> showInlineFeedback (Conversation (view_of [answered ''q-1'', UserMsg ''more'', answered ''q-2'']) ! 1) \<and>
   showInlineFeedback (Conversation (view_of [answered ''q-1'', UserMsg ''more'', answered ''q-2'']) ! 2)"
  using
    showInlineFeedback_iff [of 0 "view_of [answered ''q-1'', UserMsg ''more'', answered ''q-2'']"]
    showInlineFeedback_iff [of 1 "view_of [answered ''q-1'', UserMsg ''more'', answered ''q-2'']"]
    showInlineFeedback_iff [of 2 "view_of [answered ''q-1'', UserMsg ''more'', answered ''q-2'']"]
  by (simp add: view_of_def answered_def)

text \<open>
  C5. After any events \<open>es\<close>, a scroll event that observes
  \<open>scrollTop < scrollHeight - clientHeight\<close> sets \<open>userScrolledUp\<close>, and the flag stays set
  over every following sequence \<open>fs\<close> of renders and scroll events in which no scroll
  event observes \<open>scrollTop \<ge> scrollHeight - clientHeight\<close>. A scroll event that does
  observe it clears the flag; in particular one exactly at the bottom.
\<close>

theorem follow_state:
  "(scrollTop el < of_int (scrollHeight el - clientHeight el) \<longrightarrow>
      userScrolledUp (run st (es @ [ScrollEvent (Some el)])) \<and>
      (list_all (\<lambda>e. \<not> observes_bottom e) fs \<longrightarrow>
         userScrolledUp (run st (es @ ScrollEvent (Some el) # fs)))) \<and>
   (of_int (scrollHeight el - clientHeight el) \<le> scrollTop el \<longrightarrow>
      \<not> userScrolledUp (run st (es @ [ScrollEvent (Some el)]))) \<and>
   (scrollTop el = of_int (scrollHeight el - clientHeight el) \<longrightarrow>
      \<not> userScrolledUp (run st (es @ [ScrollEvent (Some el)])))"
proof -
  have up: "userScrolledUp (run st (es @ [ScrollEvent (Some el)]))"
    if "scrollTop el < of_int (scrollHeight el - clientHeight el)"
    using that by (simp add: run_append)
  have stay: "userScrolledUp (run st (es @ ScrollEvent (Some el) # fs))"
    if "scrollTop el < of_int (scrollHeight el - clientHeight el)"
      and "list_all (\<lambda>e. \<not> observes_bottom e) fs"
  proof -
    have "run st (es @ ScrollEvent (Some el) # fs) = run (run st (es @ [ScrollEvent (Some el)])) fs"
      by (simp add: run_append)
    with up[OF that(1)] that(2) show ?thesis by (simp add: run_stays_up)
  qed
  have down: "\<not> userScrolledUp (run st (es @ [ScrollEvent (Some el)]))"
    if "of_int (scrollHeight el - clientHeight el) \<le> scrollTop el"
    using that by (simp add: run_append)
  from up stay down show ?thesis by auto
qed

text \<open>
  Scrolling up and staying up over renders and further scroll events; then reaching the
  bottom.
\<close>

theorem follow_state_witness:
  "userScrolledUp (run initial_state
      ([RenderPass (Some at_bottom)] @
       ScrollEvent (Some scrolled_up) #
         [RenderPass (Some scrolled_up), ScrollEvent None, ScrollEvent (Some scrolled_up),
          RenderPass (Some scrolled_up)])) \<and>
   \<not> userScrolledUp (run initial_state
      ([ScrollEvent (Some scrolled_up), RenderPass (Some scrolled_up)] @
       [ScrollEvent (Some at_bottom)]))"
  using
    follow_state [of scrolled_up initial_state "[RenderPass (Some at_bottom)]"
      "[RenderPass (Some scrolled_up), ScrollEvent None, ScrollEvent (Some scrolled_up),
        RenderPass (Some scrolled_up)]"]
    follow_state [of at_bottom initial_state
      "[ScrollEvent (Some scrolled_up), RenderPass (Some scrolled_up)]" "[]"]
  by (simp add: scrolled_up_def at_bottom_def)

section \<open>Annotation decoder: the claims\<close>

text \<open>
  C2. The claim is that a lines tag whose value is not numeric, or that is missing, decodes
  to an absent range and never to NaN. The code builds the pair in every case: for the
  value \<open>abc\<close>, and for a class string without a lines tag, \<open>linesToUse\<close> is the pair of
  two NaNs.
\<close>

theorem lines_tag_nan:
  "linesToUse (lines (Some ''language-type:Quoted path:a.py, lines:abc'')) = (NaN, NaN) \<and>
   linesToUse (lines (Some ''language-type:Quoted path:a.py,'')) = (NaN, NaN)"
  by (simp add: abc_tags no_lines_tags linesToUse_nan)

text \<open>
  C3. The claim is that a lines tag that fails to parse raises nothing and suppresses the
  navigation. The component raises nothing indeed, but it still returns the chip with its
  click handler, and a click calls \<open>updateScrollToIndex\<close> with the string \<open>NaN_NaN\<close>.
\<close>

theorem chip_click_nan_event:
  "CodeRenderer J \<lparr> className = Some ''language-type:Quoted path:a.py, lines:abc'',
       children = [Text t], inline = Some False, hideCode = Some True,
       code_repoName = rn, propsJSON = pj \<rparr> =
     Inr (FileChip \<lparr> fileName = ''a.py'', filePath = ''a.py'', skipIcon = False,
       onClick = UpdateScrollToIndex ''NaN_NaN'', chip_lines = (NaN, NaN) \<rparr>)"
  by (simp add: CodeRenderer_def abc_tags chip_click_nan linesToUse_nan js_index_def)

text \<open>
  C6 (as amended). The path tag matches only where a comma follows its value on the same
  line. The decoder yields the path \<open>v\<close> exactly when the class string reads \<open>path:\<close>, then
  \<open>v\<close>, then a comma, where \<open>v\<close> is not empty and has no line break, that comma is the last
  one of its line (the group is greedy, so \<open>v\<close> may hold commas itself), and the pattern
  matches at no earlier position. The tag matches exactly when some \<open>path:\<close> is followed on
  its line by a non-empty text and a comma; if no comma follows any \<open>path:\<close>, the path is
  absent.
\<close>

theorem matchPath_greedy:
  "(matchPath (Some s) = Some v \<longleftrightarrow>
      (\<exists>pre post. s = pre @ ''path:'' @ v @ '','' @ post \<and> v \<noteq> [] \<and>
         list_all not_line_terminator v \<and>
         CHR '','' \<notin> set (takeWhile not_line_terminator post) \<and>
         (\<forall>k<length pre. path_at (drop k s) = None))) \<and>
   (matchPath (Some s) \<noteq> None \<longleftrightarrow>
      (\<exists>pre w post. s = pre @ ''path:'' @ w @ '','' @ post \<and> w \<noteq> [] \<and>
         list_all not_line_terminator w)) \<and>
   ((\<forall>pre rest. s = pre @ ''path:'' @ rest \<longrightarrow> CHR '','' \<notin> set rest) \<longrightarrow>
      matchPath (Some s) = None)"
proof -
  let ?N = not_line_terminator
  have dec: "\<exists>pre post. s = pre @ ''path:'' @ v' @ '','' @ post \<and> v' \<noteq> [] \<and>
         list_all ?N v' \<and> CHR '','' \<notin> set (takeWhile ?N post) \<and>
         (\<forall>k<length pre. path_at (drop k s) = None)"
    if "matchPath (Some s) = Some v'" for v'
  proof -
    from that have "first_match path_at s = Some v'" by (simp add: matchPath_def)
    from first_match_SomeD[OF this] obtain pre suf where
      ps: "s = pre @ suf" "path_at suf = Some v'" "\<forall>k<length pre. path_at (drop k s) = None"
      by blast
    from path_atD[OF ps(2)] obtain post where
      "suf = ''path:'' @ v' @ '','' @ post" "v' \<noteq> []" "list_all ?N v'"
      "CHR '','' \<notin> set (takeWhile ?N post)"
      by blast
    with ps(1,3) show ?thesis by blast
  qed
  have enc: "matchPath (Some s) = Some v"
    if "s = pre @ ''path:'' @ v @ '','' @ post" "v \<noteq> []" "list_all ?N v"
      "CHR '','' \<notin> set (takeWhile ?N post)" "\<forall>k<length pre. path_at (drop k s) = None"
    for pre post
  proof -
    have "path_at (''path:'' @ v @ '','' @ post) = Some v"
      unfolding path_at_segment[OF that(3)] by (rule greedy_before_comma_last[OF that(2,4)])
    moreover have "\<forall>k<length pre. path_at (drop k (pre @ ''path:'' @ v @ '','' @ post)) = None"
      using that(5) unfolding that(1) .
    ultimately have "first_match path_at (pre @ ''path:'' @ v @ '','' @ post) = Some v"
      by (rule first_match_leftmost)
    then show ?thesis
      unfolding that(1) by (simp add: matchPath_def)
  qed
  have ex: "matchPath (Some s) \<noteq> None"
    if "s = pre @ ''path:'' @ w @ '','' @ post" "w \<noteq> []" "list_all ?N w" for pre w post
  proof -
    have "path_at (''path:'' @ w @ '','' @ post) \<noteq> None"
      unfolding path_at_segment[OF that(3)] by (rule greedy_before_commaI[OF that(2)])
    from first_match_exists[of path_at "''path:'' @ w @ '','' @ post" pre, OF this]
    show ?thesis unfolding that(1) by (simp add: matchPath_def)
  qed
  have none: "matchPath (Some s) = None"
    if "\<forall>pre rest. s = pre @ ''path:'' @ rest \<longrightarrow> CHR '','' \<notin> set rest"
  proof (rule ccontr)
    assume "matchPath (Some s) \<noteq> None"
    then obtain v' where "matchPath (Some s) = Some v'" by blast
    from dec[OF this] obtain pre post where "s = pre @ ''path:'' @ (v' @ '','' @ post)"
      by auto
    with that have "CHR '','' \<notin> set (v' @ '','' @ post)" by blast
    then show False by simp
  qed
  show ?thesis
  proof (intro conjI iffI impI)
    assume "matchPath (Some s) = Some v"
    then show "\<exists>pre post. s = pre @ ''path:'' @ v @ '','' @ post \<and> v \<noteq> [] \<and>
         list_all ?N v \<and> CHR '','' \<notin> set (takeWhile ?N post) \<and>
         (\<forall>k<length pre. path_at (drop k s) = None)"
      by (rule dec)
  next
    assume "\<exists>pre post. s = pre @ ''path:'' @ v @ '','' @ post \<and> v \<noteq> [] \<and>
         list_all ?N v \<and> CHR '','' \<notin> set (takeWhile ?N post) \<and>
         (\<forall>k<length pre. path_at (drop k s) = None)"
    then show "matchPath (Some s) = Some v"
      using enc by blast
  next
    assume "matchPath (Some s) \<noteq> None"
    then obtain v' where "matchPath (Some s) = Some v'" by blast
    from dec[OF this]
    show "\<exists>pre w post. s = pre @ ''path:'' @ w @ '','' @ post \<and> w \<noteq> [] \<and> list_all ?N w"
      by blast
  next
    assume "\<exists>pre w post. s = pre @ ''path:'' @ w @ '','' @ post \<and> w \<noteq> [] \<and> list_all ?N w"
    then show "matchPath (Some s) \<noteq> None"
      using ex by blast
  next
    assume "\<forall>pre rest. s = pre @ ''path:'' @ rest \<longrightarrow> CHR '','' \<notin> set rest"
    then show "matchPath (Some s) = None" by (rule none)
  qed
qed

text \<open>
  A path before the lines tag, a value that runs over the first comma, a value that starts
  with a comma, and a path without a comma after it.
\<close>

theorem matchPath_greedy_witness:
  "matchPath (Some ''lang:rust path:src/main.rs, lines:10-20'') = Some ''src/main.rs'' \<and>
   matchPath (Some ''lang:x path:a.py, lines:5, x'') = Some ''a.py, lines:5'' \<and>
   matchPath (Some ''lang:x path:, lines:5, x'') \<noteq> None \<and>
   matchPath (Some ''lang:rust path:src/main.rs'') = None"
proof (intro conjI)
  have first: "\<forall>k<length ''lang:rust ''. path_at (drop k (''lang:rust '' @ r)) = None" for r
    by (simp add: path_at_def All_less_Suc)
  have "\<exists>pre post. ''lang:rust path:src/main.rs, lines:10-20'' =
      pre @ ''path:'' @ ''src/main.rs'' @ '','' @ post \<and> ''src/main.rs'' \<noteq> [] \<and>
      list_all not_line_terminator ''src/main.rs'' \<and>
      CHR '','' \<notin> set (takeWhile not_line_terminator post) \<and>
      (\<forall>k<length pre. path_at (drop k ''lang:rust path:src/main.rs, lines:10-20'') = None)"
    using first [of "''path:src/main.rs, lines:10-20''"]
    by (intro exI [of _ "''lang:rust ''"] exI [of _ "'' lines:10-20''"])
       (simp add: not_line_terminator_def line_terminator_def)
  then show "matchPath (Some ''lang:rust path:src/main.rs, lines:10-20'') = Some ''src/main.rs''"
    by (rule matchPath_greedy
          [of "''lang:rust path:src/main.rs, lines:10-20''" "''src/main.rs''",
            THEN conjunct1, THEN iffD2])
next
  have first: "\<forall>k<length ''lang:x ''. path_at (drop k (''lang:x '' @ r)) = None" for r
    by (simp add: path_at_def All_less_Suc)
  have "\<exists>pre post. ''lang:x path:a.py, lines:5, x'' =
      pre @ ''path:'' @ ''a.py, lines:5'' @ '','' @ post \<and> ''a.py, lines:5'' \<noteq> [] \<and>
      list_all not_line_terminator ''a.py, lines:5'' \<and>
      CHR '','' \<notin> set (takeWhile not_line_terminator post) \<and>
      (\<forall>k<length pre. path_at (drop k ''lang:x path:a.py, lines:5, x'') = None)"
    using first [of "''path:a.py, lines:5, x''"]
    by (intro exI [of _ "''lang:x ''"] exI [of _ "'' x''"])
       (simp add: not_line_terminator_def line_terminator_def)
  then show "matchPath (Some ''lang:x path:a.py, lines:5, x'') = Some ''a.py, lines:5''"
    by (rule matchPath_greedy
          [of "''lang:x path:a.py, lines:5, x''" "''a.py, lines:5''",
            THEN conjunct1, THEN iffD2])
next
  have "\<exists>pre w post. ''lang:x path:, lines:5, x'' = pre @ ''path:'' @ w @ '','' @ post \<and>
      w \<noteq> [] \<and> list_all not_line_terminator w"
    by (intro exI [of _ "''lang:x ''"] exI [of _ "'', lines:5''"] exI [of _ "'' x''"])
       (simp add: not_line_terminator_def line_terminator_def)
  then show "matchPath (Some ''lang:x path:, lines:5, x'') \<noteq> None"
    by (rule matchPath_greedy [of "''lang:x path:, lines:5, x''" "[]",
          THEN conjunct2, THEN conjunct1, THEN iffD2])
next
  have "\<forall>pre rest. ''lang:rust path:src/main.rs'' = pre @ ''path:'' @ rest \<longrightarrow>
      CHR '','' \<notin> set rest"
  proof (intro allI impI notI)
    fix pre rest :: string
    assume eq: "''lang:rust path:src/main.rs'' = pre @ ''path:'' @ rest"
      and "CHR '','' \<in> set rest"
    then have "CHR '','' \<in> set (pre @ ''path:'' @ rest)" by simp
    then have "CHR '','' \<in> set ''lang:rust path:src/main.rs''"
      unfolding eq[symmetric] .
    then show False by simp
  qed
  then show "matchPath (Some ''lang:rust path:src/main.rs'') = None"
    by (rule matchPath_greedy [of "''lang:rust path:src/main.rs''" "[]",
          THEN conjunct2, THEN conjunct2, THEN mp])
qed

text \<open>
  C6 as stated fails where a second comma follows on the line: the decoded path is not
  the text up to the comma that ends the path token, it runs on to the last comma.
\<close>

theorem matchPath_first_comma_counterexample:
  "matchPath (Some ''lang:x path:a.py, lines:5, x'') = Some ''a.py, lines:5'' \<and>
   matchPath (Some ''lang:x path:a.py, lines:5, x'') \<noteq> Some ''a.py''"
  by (simp add: greedy_example)

text \<open>
  C7. For the class string \<open>language-type:Quoted path:a.py, lines:5\<close> with \<open>hideCode\<close> true,
  \<open>inline\<close> false and one plain-text child, the component returns the file chip: its name
  and path are \<open>a.py\<close>, its line range is \<open>[4, 4]\<close>, and a click calls
  \<open>updateScrollToIndex\<close> with \<open>4_4\<close>. Without the path tag the name is the empty string.
\<close>

theorem file_chip_example:
  "CodeRenderer J \<lparr> className = Some ''language-type:Quoted path:a.py, lines:5'',
       children = [Text t], inline = Some False, hideCode = Some True,
       code_repoName = rn, propsJSON = pj \<rparr> =
     Inr (FileChip \<lparr> fileName = ''a.py'', filePath = ''a.py'', skipIcon = False,
       onClick = UpdateScrollToIndex ''4_4'', chip_lines = (Fin 4, Fin 4) \<rparr>) \<and>
   CodeRenderer J \<lparr> className = Some ''language-type:Quoted lines:5'',
       children = [Text t], inline = Some False, hideCode = Some True,
       code_repoName = rn, propsJSON = pj \<rparr> =
     Inr (FileChip \<lparr> fileName = [], filePath = [], skipIcon = False,
       onClick = UpdateScrollToIndex ''4_4'', chip_lines = (Fin 4, Fin 4) \<rparr>)"
  by (simp add: CodeRenderer_def quoted_a_py_tags pathless_tags chip_click_5 linesToUse_5
      js_index_def)

text \<open>
  C8. The class string \<open>lang:rust path:src/main.rs, lines:10-20\<close> decodes to the language
  \<open>rust\<close>, the path \<open>src/main.rs\<close> and the line range \<open>[9, 19]\<close>. Each bound is the number of
  the tag less one, and the end bound is the start bound when the tag has no second number.
\<close>

theorem decode_example:
  "matchLang (Some ''lang:rust path:src/main.rs, lines:10-20'') = Some ''rust'' \<and>
   matchPath (Some ''lang:rust path:src/main.rs, lines:10-20'') = Some ''src/main.rs'' \<and>
   linesToUse (lines (Some ''lang:rust path:src/main.rs, lines:10-20'')) = (Fin 9, Fin 19) \<and>
   linesToUse (lines (Some ''lang:rust path:src/main.rs, lines:10'')) = (Fin 9, Fin 9) \<and>
   linesToUse [a] = (minus_one (Some a), minus_one (Some a)) \<and>
   linesToUse (a # b # ls) = (minus_one (Some a), minus_one (Some b))"
  by (simp add: rust_tags linesToUse_10_20) (simp add: linesToUse_def js_index_def)

text \<open>
  C9. For one plain-text child and a class string without a language or type tag: if the
  text is \<open>#\<close> followed by three or six hexadecimal digits of either case and nothing else,
  the component returns the colour preview followed by the code element, with the parsed
  attributes, the class name and the children as they came (the ColorSwatch strategy);
  otherwise it returns the code element alone (the PlainCode strategy). Where
  \<open>JSON.parse\<close> throws, the error escapes in both cases.
\<close>

theorem hex_colour_dispatch:
  assumes "children p = [Text t]"
    and "matchLang (className p) = None" and "matchType (className p) = None"
  shows
    "((\<exists>ds. t = CHR ''#'' # ds \<and> (length ds = 3 \<or> length ds = 6) \<and>
            set ds \<subseteq> set ''0123456789ABCDEFabcdef'') \<longrightarrow>
        CodeRenderer J p =
          (case J (propsJSON p) of
             None \<Rightarrow> Inl SyntaxError
           | Some a \<Rightarrow> Inr (PreviewAndCode t
               \<lparr> attributes = a, el_className = className p, el_children = [Text t] \<rparr>)) \<and>
        (\<forall>r. CodeRenderer J p = Inr r \<longrightarrow> strategy r = ColorSwatch)) \<and>
     (\<not> (\<exists>ds. t = CHR ''#'' # ds \<and> (length ds = 3 \<or> length ds = 6) \<and>
            set ds \<subseteq> set ''0123456789ABCDEFabcdef'') \<longrightarrow>
        CodeRenderer J p =
          (case J (propsJSON p) of
             None \<Rightarrow> Inl SyntaxError
           | Some a \<Rightarrow> Inr (Code
               \<lparr> attributes = a, el_className = className p, el_children = [Text t] \<rparr>)) \<and>
        (\<forall>r. CodeRenderer J p = Inr r \<longrightarrow> strategy r = PlainCode))"
  unfolding test_hex_colour_iff[symmetric] CodeRenderer_untagged[OF assms(2,3)] assms(1)
    colorPreview_single
  by (auto split: option.splits)

text \<open>\<open>#FFF\<close> and \<open>#a1b2C3\<close> get the preview, \<open>#GGGGGG\<close> does not.\<close>

theorem hex_colour_dispatch_witness:
  "CodeRenderer parse_empty_object (inline_code ''#FFF'') =
     Inr (PreviewAndCode ''#FFF''
       \<lparr> attributes = [], el_className = None, el_children = [Text ''#FFF''] \<rparr>) \<and>
   CodeRenderer parse_empty_object (inline_code ''#a1b2C3'') =
     Inr (PreviewAndCode ''#a1b2C3''
       \<lparr> attributes = [], el_className = None, el_children = [Text ''#a1b2C3''] \<rparr>) \<and>
   CodeRenderer parse_empty_object (inline_code ''#GGGGGG'') =
     Inr (Code \<lparr> attributes = [], el_className = None, el_children = [Text ''#GGGGGG''] \<rparr>)"
  using
    hex_colour_dispatch [of "inline_code ''#FFF''" "''#FFF''" parse_empty_object]
    hex_colour_dispatch [of "inline_code ''#a1b2C3''" "''#a1b2C3''" parse_empty_object]
    hex_colour_dispatch [of "inline_code ''#GGGGGG''" "''#GGGGGG''" parse_empty_object]
  by (simp add: inline_code_def parse_empty_object_def untagged_None)

text \<open>
  C10 (as amended). For a class string without a \<open>lang:<word>\<close> token in which the type
  tag \<open>language-type:<word>\<close> occurs and no \<open>language-<word>\<close> token starts before it, the
  decoded language is \<open>type\<close>; the source quote and the syntax block are given that
  language.
\<close>

theorem language_of_leading_type_tag:
  assumes "first_match (word_at ''lang:'') s = None"
    and "s = pre @ ''language-type:'' @ c # rest" and "word_char c"
    and "\<forall>k<length pre. word_at ''language-'' (drop k s) = None"
    and "className p = Some s"
  shows "matchType (Some s) \<noteq> None \<and> matchLang (Some s) = Some ''type'' \<and>
    (\<forall>q. CodeRenderer J p = Inr (CodeWithBreadcrumbs q) \<longrightarrow> cwb_language q = ''type'') \<and>
    (\<forall>q. CodeRenderer J p = Inr (NewCode q) \<longrightarrow> nc_language q = ''type'')"
proof -
  have ty: "matchType (Some s) \<noteq> None"
    unfolding matchType_def or_empty.simps assms(2)
    by (rule first_match_exists[of "word_at ''language-type:''" "''language-type:'' @ c # rest" pre,
          OF word_at_type_tag[OF assms(3)]])
  have "first_match (word_at ''language-'') (pre @ ''language-type:'' @ c # rest) = Some ''type''"
    using assms(4) unfolding assms(2)
    by (intro first_match_leftmost word_at_language_type)
  then have "first_match (word_at ''language-'') s = Some ''type''"
    unfolding assms(2) .
  then have lang: "matchLang (Some s) = Some ''type''"
    using assms(1) by (simp add: matchLang_def)
  have "cwb_language q = ''type''" if "CodeRenderer J p = Inr (CodeWithBreadcrumbs q)" for q
    using that lang
    by (auto simp: CodeRenderer_def assms(5) split: if_splits option.splits sum.splits)
  moreover have "nc_language q = ''type''" if "CodeRenderer J p = Inr (NewCode q)" for q
    using that lang
    by (auto simp: CodeRenderer_def assms(5) split: if_splits option.splits sum.splits)
  ultimately show ?thesis using ty lang by blast
qed

text \<open>A quoted block and a block of another type, both with the type tag in front.\<close>

theorem language_of_leading_type_tag_witness:
  "CodeRenderer parse_empty_object (block ''language-type:Quoted path:a.py, lines:5'' False) =
     Inr (CodeWithBreadcrumbs
       \<lparr> cwb_code = ''fn main() {}'', cwb_language = ''type'', cwb_filePath = ''a.py'',
         startLine = Some (Fin 4), cwb_repoName = ''repo'' \<rparr>) \<and>
   CodeRenderer parse_empty_object (block ''language-type:Other'' False) =
     Inr (NewCode \<lparr> nc_code = ''fn main() {}'', nc_language = ''type'' \<rparr>)"
proof -
  have Q: "word_char CHR ''Q''" and O: "word_char CHR ''O''"
    by (simp_all add: word_char_def)
  have first: "\<forall>k<length ([]::string). word_at ''language-'' (drop k s) = None" for s
    by simp
  have "''language-type:Quoted path:a.py, lines:5'' =
      [] @ ''language-type:'' @ CHR ''Q'' # ''uoted path:a.py, lines:5''"
    by simp
  from language_of_leading_type_tag [OF no_lang_token this Q first, of
      "block ''language-type:Quoted path:a.py, lines:5'' False" parse_empty_object]
  have q: "matchLang (Some ''language-type:Quoted path:a.py, lines:5'') = Some ''type''"
    by (simp add: block_def)
  have "''language-type:Other'' = [] @ ''language-type:'' @ CHR ''O'' # ''ther''"
    by simp
  from language_of_leading_type_tag [OF other_tags(2) this O first, of
      "block ''language-type:Other'' False" parse_empty_object]
  have o: "matchLang (Some ''language-type:Other'') = Some ''type''"
    by (simp add: block_def)
  show ?thesis
    by (simp add: CodeRenderer_def block_def q o quoted_a_py_tags(1,3,4) other_tags(1)
        round64_4 example_code js_index_def)
qed

text \<open>
  C10 as stated fails where a \<open>language-<word>\<close> token stands before the type tag: the
  fallback pattern matches there first, and the language is that word.
\<close>

theorem language_not_type_counterexample:
  "matchType (Some ''language-js language-type:Quoted'') = Some ''Quoted'' \<and>
   first_match (word_at ''lang:'') ''language-js language-type:Quoted'' = None \<and>
   matchLang (Some ''language-js language-type:Quoted'') = Some ''js'' \<and>
   CodeRenderer parse_empty_object (block ''language-js language-type:Quoted'' False) =
     Inr (CodeWithBreadcrumbs
       \<lparr> cwb_code = ''fn main() {}'', cwb_language = ''js'', cwb_filePath = [],
         startLine = None, cwb_repoName = ''repo'' \<rparr>)"
proof (intro conjI)
  show "CodeRenderer parse_empty_object (block ''language-js language-type:Quoted'' False) =
     Inr (CodeWithBreadcrumbs
       \<lparr> cwb_code = ''fn main() {}'', cwb_language = ''js'', cwb_filePath = [],
         startLine = None, cwb_repoName = ''repo'' \<rparr>)"
    by (simp add: CodeRenderer_def block_def js_tags(1,3,4,5) example_code js_index_def)
qed (rule js_tags)+

end
